theory Spec2Isabelle
  imports
    Complex_Main
    "HOL-Library.List_Lexorder"
    "HOL-Library.Char_ord"
    "HOL-Library.Product_Lexorder"
    "HOL-Library.Sublist"
    "HOL-Library.Log_Nat"
begin

section \<open>Data model of \<^verbatim>\<open>app.py\<close>\<close>

text \<open>
  The dashboard script holds one table (a pandas DataFrame) in memory. A table is a list of
  rows in file order. Amounts are rationals (every binary64 number is one), and
  \<open>series_sum\<close> adds them exactly. The script adds them in binary64; the rounded sums are
  modelled apart, in the section on binary64 sums, for the one property that depends on
  the rounding. Text columns are never missing; the only column that can hold a missing
  value is the parsed order date (\<^verbatim>\<open>NaT\<close>) and the year derived from it
  (\<^verbatim>\<open>NaN\<close>), both written \<open>None\<close>.
\<close>

record date =
  dt_year :: int
  dt_month :: nat
  dt_day :: nat

text \<open>A monthly period (\<^verbatim>\<open>to_period("M")\<close>): calendar year and month.\<close>

type_synonym period = "int \<times> nat"

text \<open>
  The columns of the file that the script reads, with the order date at type \<open>'d\<close>: text
  as \<^verbatim>\<open>read_csv\<close> delivers it, a parsed date after \<^verbatim>\<open>to_datetime\<close>. All further
  columns of the file are kept as they are in \<open>Other_Columns\<close>.
\<close>

record 'd csv_columns =
  Order_Date :: 'd
  Sales :: rat
  Profit :: rat
  Region :: string
  Category :: string
  Product_Name :: string
  Other_Columns :: "string list"

type_synonym csv_row = "string csv_columns"

text \<open>A row of the loaded table: the parsed date and the two derived columns.\<close>

record order_row = "date option csv_columns" +
  Year :: "int option"
  Profit_Margin :: rat

datatype py_error = ZeroDivisionError

section \<open>Table primitives\<close>

text \<open>\<^verbatim>\<open>df[mask]\<close>: the rows at which the boolean mask is true, in table order.\<close>

definition boolean_index :: "'a list \<Rightarrow> bool list \<Rightarrow> 'a list" where
  "boolean_index df bmask = map fst (filter snd (zip df bmask))"

text \<open>\<^verbatim>\<open>col == v\<close>: a missing value equals nothing.\<close>

definition series_eq :: "'a option list \<Rightarrow> 'a \<Rightarrow> bool list" where
  "series_eq col v = map (\<lambda>x. x = Some v) col"

text \<open>\<^verbatim>\<open>col.isin(values)\<close>\<close>

definition isin :: "'a list \<Rightarrow> 'a list \<Rightarrow> bool list" where
  "isin col vals = map (\<lambda>x. x \<in> set vals) col"

text \<open>\<^verbatim>\<open>m1 & m2\<close> on two masks of one table.\<close>

definition mask_and :: "bool list \<Rightarrow> bool list \<Rightarrow> bool list" where
  "mask_and m1 m2 = map2 (\<and>) m1 m2"

text \<open>\<^verbatim>\<open>series.sum()\<close> in exact arithmetic: the sum of no value is 0.\<close>

definition series_sum :: "rat list \<Rightarrow> rat" where
  "series_sum xs = sum_list xs"

text \<open>
  \<^verbatim>\<open>duplicated()\<close> with the default \<^verbatim>\<open>keep="first"\<close>: a row is marked when an equal
  row (all columns equal) stands before it.
\<close>

fun duplicated_from :: "'a list \<Rightarrow> 'a list \<Rightarrow> bool list" where
  "duplicated_from seen [] = []"
| "duplicated_from seen (x # xs) = (x \<in> set seen) # duplicated_from (x # seen) xs"

definition drop_duplicates :: "'a list \<Rightarrow> 'a list" where
  "drop_duplicates df = boolean_index df (map Not (duplicated_from [] df))"

text \<open>
  \<^verbatim>\<open>groupby(key)\<close> with the defaults \<^verbatim>\<open>sort=True, dropna=True\<close>: one group per key
  value that occurs, in ascending key order; rows whose key is missing are in no group.
\<close>

definition groupby :: "('r \<Rightarrow> 'k::linorder option) \<Rightarrow> 'r list \<Rightarrow> ('k \<times> 'r list) list" where
  "groupby key rows =
     map (\<lambda>k. (k, filter (\<lambda>r. key r = Some k) rows)) (sort (remdups (List.map_filter key rows)))"

text \<open>
  \<^verbatim>\<open>sort_values(ascending=False)\<close> on a series of (label, value) entries. pandas reverses
  the entries, asks numpy's \<^verbatim>\<open>argsort\<close> for the positions that put the values in
  ascending order, takes the entries at these positions and reverses the result. The script
  leaves the sort kind at its default, quicksort, which is not stable: where values are
  equal the order of the positions is the library's choice. \<open>argsort\<close> is therefore a
  parameter, and \<open>is_argsort idx vs\<close> says what every routine guarantees: \<open>idx\<close> holds each
  position of \<open>vs\<close> once and the values at these positions ascend. A position outside the
  series, which no routine returns, selects nothing.
\<close>

definition is_argsort :: "nat list \<Rightarrow> rat list \<Rightarrow> bool" where
  "is_argsort idx vs \<longleftrightarrow> sort idx = [0..<length vs] \<and> sorted (map (\<lambda>i. vs ! i) idx)"

definition take_rows :: "'a list \<Rightarrow> nat list \<Rightarrow> 'a list" where
  "take_rows s idx = map (\<lambda>i. s ! i) (filter (\<lambda>i. i < length s) idx)"

definition sort_values_descending :: "(rat list \<Rightarrow> nat list) \<Rightarrow> ('k \<times> rat) list \<Rightarrow> ('k \<times> rat) list" where
  "sort_values_descending argsort s =
     (let r = rev s in rev (take_rows r (argsort (map snd r))))"

text \<open>\<^verbatim>\<open>head(n)\<close> for a count \<open>n \<ge> 0\<close>.\<close>

definition head :: "nat \<Rightarrow> 'a list \<Rightarrow> 'a list" where
  "head n s = take n s"

text \<open>Python's \<^verbatim>\<open>/\<close>, which raises on a zero divisor.\<close>

definition py_truediv :: "rat \<Rightarrow> rat \<Rightarrow> py_error + rat" where
  "py_truediv a b = (if b = 0 then Inl ZeroDivisionError else Inr (a / b))"

section \<open>The loader\<close>

text \<open>
  \<^verbatim>\<open>load_data\<close>, lines 40 to 47. The file's content is the list of rows that
  \<^verbatim>\<open>read_csv\<close> returns. \<^verbatim>\<open>pd.to_datetime(column, errors="coerce")\<close> is a library
  function and a parameter here: \<open>to_datetime column cell\<close> is the parsed date of one cell
  of the column, \<open>None\<close> when the cell cannot be parsed (the column is passed along because
  the library may infer the date format from it). \<open>loaded_row d r\<close> is the row that lines
  44 to 46 make of the file row \<open>r\<close> once its date is parsed to \<open>d\<close>: the parsed date,
  the year taken from it, and the profit margin, 0 where the sales are 0.
\<close>

definition loaded_row :: "date option \<Rightarrow> csv_row \<Rightarrow> order_row" where
  "loaded_row d r =
     \<lparr>Order_Date = d, Sales = Sales r, Profit = Profit r, Region = Region r,
      Category = Category r, Product_Name = Product_Name r,
      Other_Columns = Other_Columns r,
      Year = map_option dt_year d,
      Profit_Margin = (if Sales r \<noteq> 0 then Profit r / Sales r else 0)\<rparr>"

definition load_data :: "(string list \<Rightarrow> string \<Rightarrow> date option) \<Rightarrow> csv_row list \<Rightarrow> order_row list" where
  "load_data to_datetime csv =
     (let df = drop_duplicates csv;
          column = map Order_Date df
      in map (\<lambda>r. loaded_row (to_datetime column (Order_Date r)) r) df)"

section \<open>The filters\<close>

text \<open>\<^verbatim>\<open>filtered_df\<close>, lines 63 to 67: three masks joined by \<^verbatim>\<open>&\<close>.\<close>

definition filtered_df :: "order_row list \<Rightarrow> int \<Rightarrow> string list \<Rightarrow> string list \<Rightarrow> order_row list" where
  "filtered_df df selected_year selected_region selected_category =
     boolean_index df
       (mask_and
          (mask_and (series_eq (map Year df) selected_year)
                    (isin (map Region df) selected_region))
          (isin (map Category df) selected_category))"

text \<open>\<^verbatim>\<open>previous_df\<close>, line 69.\<close>

definition previous_df :: "order_row list \<Rightarrow> int \<Rightarrow> order_row list" where
  "previous_df df selected_year = boolean_index df (series_eq (map Year df) (selected_year - 1))"

section \<open>The aggregates\<close>

text \<open>Lines 71 and 72.\<close>

definition total_revenue :: "order_row list \<Rightarrow> rat" where
  "total_revenue filtered = series_sum (map Sales filtered)"

definition total_profit :: "order_row list \<Rightarrow> rat" where
  "total_profit filtered = series_sum (map Profit filtered)"

text \<open>Line 73: the division is guarded by the test on the revenue.\<close>

definition margin :: "order_row list \<Rightarrow> py_error + rat" where
  "margin filtered =
     (if total_revenue filtered \<noteq> 0
      then py_truediv (total_profit filtered) (total_revenue filtered)
      else Inr 0)"

text \<open>Line 101: the margin is shown as \<^verbatim>\<open>margin * 100\<close>.\<close>

definition margin_percent :: "order_row list \<Rightarrow> py_error + rat" where
  "margin_percent filtered =
     (case margin filtered of Inl e \<Rightarrow> Inl e | Inr m \<Rightarrow> Inr (m * 100))"

text \<open>Lines 75 and 76.\<close>

definition prev_revenue :: "order_row list \<Rightarrow> rat" where
  "prev_revenue previous = series_sum (map Sales previous)"

definition revenue_growth :: "order_row list \<Rightarrow> order_row list \<Rightarrow> py_error + rat" where
  "revenue_growth filtered previous =
     (if prev_revenue previous \<noteq> 0
      then (case py_truediv (total_revenue filtered - prev_revenue previous) (prev_revenue previous) of
              Inl e \<Rightarrow> Inl e
            | Inr q \<Rightarrow> Inr (q * 100))
      else Inr 0)"

text \<open>
  Lines 207 to 210: the closing message, \<^verbatim>\<open>st.success\<close> for an increase and
  \<^verbatim>\<open>st.error\<close> for a decline, each with the number it prints (before it is rounded to
  one decimal place).
\<close>

datatype growth_message = Increased rat | Declined rat

definition growth_banner :: "rat \<Rightarrow> growth_message" where
  "growth_banner g = (if g > 0 then Increased g else Declined \<bar>g\<bar>)"

section \<open>The grouped series\<close>

definition to_period_M :: "date \<Rightarrow> period" where
  "to_period_M d = (dt_year d, dt_month d)"

text \<open>
  Lines 108 to 113: sales per month of the order date. A row without a date has no
  period and is in no group.
\<close>

definition monthly_grouped :: "order_row list \<Rightarrow> (period \<times> rat) list" where
  "monthly_grouped filtered =
     map (\<lambda>(k, g). (k, series_sum (map Sales g)))
       (groupby (\<lambda>r. map_option to_period_M (Order_Date r)) filtered)"

text \<open>
  Line 114 turns each period into text, on the table already grouped and ordered;
  \<^verbatim>\<open>astype(str)\<close> is a parameter.
\<close>

definition monthly :: "(period \<Rightarrow> string) \<Rightarrow> order_row list \<Rightarrow> (string \<times> rat) list" where
  "monthly astype_str filtered = map (\<lambda>(k, s). (astype_str k, s)) (monthly_grouped filtered)"

text \<open>Lines 130 to 134.\<close>

definition category :: "order_row list \<Rightarrow> (string \<times> rat) list" where
  "category filtered =
     map (\<lambda>(k, g). (k, series_sum (map Profit g)))
       (groupby (\<lambda>r. Some (Category r)) filtered)"

text \<open>Lines 154 to 158.\<close>

definition region :: "order_row list \<Rightarrow> (string \<times> rat \<times> rat) list" where
  "region filtered =
     map (\<lambda>(k, g). (k, series_sum (map Sales g), series_sum (map Profit g)))
       (groupby (\<lambda>r. Some (Region r)) filtered)"

text \<open>
  Lines 184 to 190, with the count of \<^verbatim>\<open>head\<close> as an argument (the script calls it
  with 5) and with the library's sorting routine as an argument.
\<close>

definition product_sales :: "order_row list \<Rightarrow> (string \<times> rat) list" where
  "product_sales filtered =
     map (\<lambda>(k, g). (k, series_sum (map Sales g)))
       (groupby (\<lambda>r. Some (Product_Name r)) filtered)"

definition top_products_n ::
  "(rat list \<Rightarrow> nat list) \<Rightarrow> nat \<Rightarrow> order_row list \<Rightarrow> (string \<times> rat) list" where
  "top_products_n argsort n filtered =
     head n (sort_values_descending argsort (product_sales filtered))"

definition top_products :: "(rat list \<Rightarrow> nat list) \<Rightarrow> order_row list \<Rightarrow> (string \<times> rat) list" where
  "top_products argsort filtered = top_products_n argsort 5 filtered"

section \<open>Sums in binary64\<close>

text \<open>
  The nearest binary64 number to a rational, ties to the even significand: the value is
  scaled so that its significand has 53 bits (fewer in the subnormal range, where the
  exponent stops at -1074) and rounded to an integer. Overflow to infinity is not modelled;
  the amounts stay far below it.
\<close>

definition pow2 :: "int \<Rightarrow> rat" where
  "pow2 e = (if 0 \<le> e then 2 ^ nat e else 1 / 2 ^ nat (- e))"

definition round_half_even :: "rat \<Rightarrow> int" where
  "round_half_even m =
     (let f = \<lfloor>m\<rfloor>; d = m - of_int f
      in if d < 1 / 2 then f else if 1 / 2 < d then f + 1 else if even f then f else f + 1)"

definition binary64_exponent :: "rat \<Rightarrow> int" where
  "binary64_exponent q =
     max (- 1074)
       ((if 1 \<le> \<bar>q\<bar> then bitlen \<lfloor>\<bar>q\<bar>\<rfloor> - 1 else - bitlen (\<lceil>1 / \<bar>q\<bar>\<rceil> - 1)) - 52)"

definition round_to_binary64 :: "rat \<Rightarrow> rat" where
  "round_to_binary64 q =
     (if q = 0 then 0
      else of_int (round_half_even (q / pow2 (binary64_exponent q))) * pow2 (binary64_exponent q))"

text \<open>
  The sum of a column in binary64, from 0 and from left to right, each addition rounded.
  This is the order in which the script adds the short columns of the examples below.
\<close>

definition float64_sum :: "rat list \<Rightarrow> rat" where
  "float64_sum xs = foldl (\<lambda>a x. round_to_binary64 (a + x)) 0 xs"

text \<open>
  Lines 71, 72, 130 to 134 and 154 to 158 once more, with the routine that adds a column
  (\<^verbatim>\<open>Series.sum\<close>) and the routine that adds the rows of a group
  (\<^verbatim>\<open>groupby(...).sum()\<close>) as arguments. With the exact \<open>series_sum\<close> for both they
  are \<open>total_revenue\<close>, \<open>total_profit\<close>, \<open>category\<close> and \<open>region\<close>.
\<close>

definition total_revenue_by :: "(rat list \<Rightarrow> rat) \<Rightarrow> order_row list \<Rightarrow> rat" where
  "total_revenue_by column_sum filtered = column_sum (map Sales filtered)"

definition total_profit_by :: "(rat list \<Rightarrow> rat) \<Rightarrow> order_row list \<Rightarrow> rat" where
  "total_profit_by column_sum filtered = column_sum (map Profit filtered)"

definition category_by :: "(rat list \<Rightarrow> rat) \<Rightarrow> order_row list \<Rightarrow> (string \<times> rat) list" where
  "category_by group_sum filtered =
     map (\<lambda>(k, g). (k, group_sum (map Profit g)))
       (groupby (\<lambda>r. Some (Category r)) filtered)"

definition region_by :: "(rat list \<Rightarrow> rat) \<Rightarrow> order_row list \<Rightarrow> (string \<times> rat \<times> rat) list" where
  "region_by group_sum filtered =
     map (\<lambda>(k, g). (k, group_sum (map Sales g), group_sum (map Profit g)))
       (groupby (\<lambda>r. Some (Region r)) filtered)"

section \<open>The ranking as the specification words it\<close>

text \<open>
  The specification's \<^verbatim>\<open>topProductsByRevenue(view, n)\<close>, from its words and not from the
  code: the products in the order in which the view first shows them, each with the sum of
  its sales, sorted by that sum descending with a stable sort, cut to \<open>n\<close> entries.
\<close>

definition spec_topProductsByRevenue :: "order_row list \<Rightarrow> nat \<Rightarrow> (string \<times> rat) list" where
  "spec_topProductsByRevenue view n =
     take n (sort_key (\<lambda>e. - snd e)
       (map (\<lambda>p. (p, sum_list (map Sales (filter (\<lambda>r. Product_Name r = p) view))))
          (drop_duplicates (map Product_Name view))))"

section \<open>Examples used below\<close>

definition mk_row :: "int \<Rightarrow> nat \<Rightarrow> rat \<Rightarrow> rat \<Rightarrow> string \<Rightarrow> string \<Rightarrow> string \<Rightarrow> order_row" where
  "mk_row y m s p reg cat pname =
     \<lparr>Order_Date = Some \<lparr>dt_year = y, dt_month = m, dt_day = 1\<rparr>, Sales = s, Profit = p,
      Region = reg, Category = cat, Product_Name = pname, Other_Columns = [],
      Year = Some y, Profit_Margin = (if s \<noteq> 0 then p / s else 0)\<rparr>"

definition undated_row :: order_row where
  "undated_row =
     \<lparr>Order_Date = None, Sales = 5, Profit = 1, Region = ''East'', Category = ''Tech'',
      Product_Name = ''Pen'', Other_Columns = [], Year = None, Profit_Margin = 1 / 5\<rparr>"

definition example_df :: "order_row list" where
  "example_df =
     [mk_row 2023 1 100 20 ''East'' ''Tech'' ''Phone'',
      mk_row 2022 7 80 8 ''West'' ''Tech'' ''Phone'',
      undated_row,
      mk_row 2023 3 200 (-50) ''West'' ''Office'' ''Desk'',
      mk_row 2023 1 40 4 ''South'' ''Tech'' ''Cable'']"

definition tie_view :: "order_row list" where
  "tie_view =
     [mk_row 2023 1 10 1 ''East'' ''Tech'' ''Desk'',
      mk_row 2023 2 10 2 ''East'' ''Tech'' ''Chair'']"

definition tie_view3 :: "order_row list" where
  "tie_view3 =
     [mk_row 2023 1 10 1 ''East'' ''Tech'' ''Desk'',
      mk_row 2023 2 10 2 ''East'' ''Tech'' ''Chair'',
      mk_row 2023 2 30 2 ''West'' ''Tech'' ''Lamp'']"

definition tie_view_swapped :: "order_row list" where
  "tie_view_swapped =
     [mk_row 2023 2 10 2 ''East'' ''Tech'' ''Chair'',
      mk_row 2023 1 10 1 ''East'' ''Tech'' ''Desk'']"

definition tie_view4 :: "order_row list" where
  "tie_view4 =
     [mk_row 2023 1 10 1 ''East'' ''Tech'' ''Apron'',
      mk_row 2023 1 10 1 ''East'' ''Tech'' ''Bench'',
      mk_row 2023 2 20 2 ''West'' ''Tech'' ''Chair'',
      mk_row 2023 2 20 2 ''West'' ''Tech'' ''Desk'']"

text \<open>
  Two sorting routines: the first keeps equal values in the order of their positions, the
  second puts them in the opposite order.
\<close>

definition stable_argsort :: "rat list \<Rightarrow> nat list" where
  "stable_argsort vs = map snd (sort_key fst (zip vs [0..<length vs]))"

definition reversing_argsort :: "rat list \<Rightarrow> nat list" where
  "reversing_argsort vs = map snd (rev (sort_key (\<lambda>p. - fst p) (zip vs [0..<length vs])))"

text \<open>A view whose amounts differ by sixteen orders of magnitude.\<close>

definition rounding_view :: "order_row list" where
  "rounding_view =
     [mk_row 2023 1 10000000000000000 10000000000000000 ''East'' ''Tech'' ''Crane'',
      mk_row 2023 1 1 1 ''West'' ''Office'' ''Pen'',
      mk_row 2023 2 (- 10000000000000000) (- 10000000000000000) ''East'' ''Tech'' ''Crane'',
      mk_row 2023 2 1 1 ''West'' ''Office'' ''Pen'']"

text \<open>A parser that knows one date only, and a file with two rows, each of them twice.\<close>

definition toy_to_datetime :: "string list \<Rightarrow> string \<Rightarrow> date option" where
  "toy_to_datetime column cell =
     (if cell = ''2023-01-15'' then Some \<lparr>dt_year = 2023, dt_month = 1, dt_day = 15\<rparr> else None)"

definition mk_csv :: "string \<Rightarrow> rat \<Rightarrow> rat \<Rightarrow> csv_row" where
  "mk_csv d s p =
     \<lparr>Order_Date = d, Sales = s, Profit = p, Region = ''East'', Category = ''Tech'',
      Product_Name = ''Phone'', Other_Columns = []\<rparr>"

definition example_csv :: "csv_row list" where
  "example_csv =
     [mk_csv ''2023-01-15'' 100 20, mk_csv ''n/a'' 50 5, mk_csv ''2023-01-15'' 100 20,
      mk_csv ''n/a'' 50 5]"

lemmas example_simps =
  example_df_def mk_row_def undated_row_def tie_view_def tie_view3_def
  groupby_def map_filter_simps series_sum_def head_def
  product_sales_def top_products_def top_products_n_def category_def region_def
  monthly_grouped_def monthly_def to_period_M_def total_revenue_def total_profit_def
  prev_revenue_def

lemmas ranking_simps =
  tie_view_swapped_def tie_view4_def sort_values_descending_def take_rows_def is_argsort_def
  stable_argsort_def reversing_argsort_def Let_def

lemmas rollup_by_simps =
  rounding_view_def total_revenue_by_def total_profit_by_def category_by_def region_by_def

section \<open>Facts about the table primitives\<close>

lemma boolean_index_map: "boolean_index xs (map P xs) = filter P xs"
  unfolding boolean_index_def by (induction xs) auto

lemma mask_and_map: "mask_and (map P xs) (map Q xs) = map (\<lambda>x. P x \<and> Q x) xs"
  unfolding mask_and_def by (induction xs) auto

lemma series_eq_map: "series_eq (map f xs) v = map (\<lambda>x. f x = Some v) xs"
  unfolding series_eq_def by simp

lemma isin_map: "isin (map f xs) vals = map (\<lambda>x. f x \<in> set vals) xs"
  unfolding isin_def by simp

lemma filtered_df_filter:
  "filtered_df df y regs cats =
     filter (\<lambda>r. Year r = Some y \<and> Region r \<in> set regs \<and> Category r \<in> set cats) df"
  unfolding filtered_df_def
  by (simp add: series_eq_map isin_map mask_and_map boolean_index_map)

lemma previous_df_filter:
  "previous_df df y = filter (\<lambda>r. Year r = Some (y - 1)) df"
  unfolding previous_df_def by (simp add: series_eq_map boolean_index_map)

section \<open>Facts about grouping\<close>

lemma groupby_Nil: "groupby key [] = []"
  by (simp add: groupby_def map_filter_simps)

lemma set_map_filter_key: "set (List.map_filter key rows) = {k. \<exists>r \<in> set rows. key r = Some k}"
  by (force simp: map_filter_def image_iff)

lemma groupby_keys: "map fst (groupby key rows) = sort (remdups (List.map_filter key rows))"
  by (simp add: groupby_def comp_def)

lemma groupby_keys_distinct: "distinct (map fst (groupby key rows))"
  by (simp add: groupby_keys)

lemma groupby_keys_sorted: "sorted (map fst (groupby key rows))"
  by (simp add: groupby_keys)

lemma groupby_keys_set: "set (map fst (groupby key rows)) = {k. \<exists>r \<in> set rows. key r = Some k}"
  by (simp add: groupby_keys set_map_filter_key)

lemma groupby_length: "length (groupby key rows) = card {k. \<exists>r \<in> set rows. key r = Some k}"
  by (simp add: groupby_def length_remdups_card_conv set_map_filter_key)

lemma groupby_group: "(k, g) \<in> set (groupby key rows) \<Longrightarrow> g = filter (\<lambda>r. key r = Some k) rows"
  by (auto simp: groupby_def)

lemma sum_list_filter_keys:
  "distinct ks \<Longrightarrow> \<forall>r \<in> set rows. \<exists>k \<in> set ks. key r = Some k \<Longrightarrow>
   (\<Sum>k\<leftarrow>ks. sum_list (map val (filter (\<lambda>r. key r = Some k) rows))) = sum_list (map (val :: 'r \<Rightarrow> rat) rows)"
proof (induction rows)
  case Nil
  then show ?case by simp
next
  case (Cons x rows)
  from Cons.prems obtain a where a: "a \<in> set ks" "key x = Some a" by auto
  have one: "(\<Sum>k\<leftarrow>ks. if key x = Some k then val x else 0) = val x"
    using Cons.prems(1) a by (simp add: sum_list_distinct_conv_sum_set sum.delta')
  have "(\<Sum>k\<leftarrow>ks. sum_list (map val (filter (\<lambda>r. key r = Some k) (x # rows))))
      = (\<Sum>k\<leftarrow>ks. (if key x = Some k then val x else 0) + sum_list (map val (filter (\<lambda>r. key r = Some k) rows)))"
    by (rule arg_cong [where f = sum_list]) auto
  also have "\<dots> = (\<Sum>k\<leftarrow>ks. if key x = Some k then val x else 0)
      + (\<Sum>k\<leftarrow>ks. sum_list (map val (filter (\<lambda>r. key r = Some k) rows)))"
    by (simp add: sum_list_addf)
  also have "\<dots> = val x + sum_list (map val rows)"
    using one Cons.IH Cons.prems by simp
  finally show ?case by simp
qed

lemma groupby_sum_total:
  assumes "\<forall>r \<in> set rows. key r \<noteq> None"
  shows "(\<Sum>(k, g)\<leftarrow>groupby key rows. series_sum (map val g)) = series_sum (map val rows)"
proof -
  let ?ks = "sort (remdups (List.map_filter key rows))"
  have "(\<Sum>(k, g)\<leftarrow>groupby key rows. series_sum (map val g))
      = (\<Sum>k\<leftarrow>?ks. sum_list (map val (filter (\<lambda>r. key r = Some k) rows)))"
    by (simp add: groupby_def series_sum_def comp_def)
  also have "\<dots> = sum_list (map val rows)"
  proof (rule sum_list_filter_keys)
    show "distinct ?ks" by simp
    show "\<forall>r \<in> set rows. \<exists>k \<in> set ?ks. key r = Some k"
      using assms by (fastforce simp: set_map_filter_key)
  qed
  finally show ?thesis by (simp add: series_sum_def)
qed

lemma monthly_grouped_keys:
  "map fst (monthly_grouped v) = map fst (groupby (\<lambda>r. map_option to_period_M (Order_Date r)) v)"
  by (simp add: monthly_grouped_def comp_def case_prod_unfold)

lemma chronological_less:
  "(p :: period) < q \<Longrightarrow> fst p < fst q \<or> (fst p = fst q \<and> snd p < snd q)"
  by (cases p; cases q) (auto simp: less_prod_def)

section \<open>Facts about the descending sort\<close>

lemma is_argsort_positions:
  assumes "is_argsort idx vs"
  shows "set idx = {0..<length vs}" and "distinct idx" and "length idx = length vs"
proof -
  from assms have s: "sort idx = [0..<length vs]" by (simp add: is_argsort_def)
  have "set idx = set (sort idx)" by simp
  then show "set idx = {0..<length vs}" unfolding s by simp
  have "distinct (sort idx)" unfolding s by simp
  then show "distinct idx" by simp
  have "length idx = length (sort idx)" by simp
  then show "length idx = length vs" unfolding s by simp
qed

lemma take_rows_in_range:
  "set idx \<subseteq> {0..<length s} \<Longrightarrow> take_rows s idx = map (\<lambda>i. s ! i) idx"
  unfolding take_rows_def by (rule arg_cong [where f = "map (\<lambda>i. s ! i)"], rule filter_True) auto

lemma set_take_rows:
  "set idx = {0..<length s} \<Longrightarrow> set (take_rows s idx) = set s"
  using nth_image [of "length s" s] by (simp add: take_rows_in_range)

lemma distinct_fst_take_rows:
  assumes "set idx \<subseteq> {0..<length s}" and "distinct idx" and "distinct (map fst s)"
  shows "distinct (map fst (take_rows s idx))"
proof -
  have "inj_on (\<lambda>i. fst (s ! i)) (set idx)"
  proof (rule inj_onI)
    fix i j assume i: "i \<in> set idx" and j: "j \<in> set idx" and e: "fst (s ! i) = fst (s ! j)"
    from i j assms(1) have b: "i < length s" "j < length s" by auto
    with e have "map fst s ! i = map fst s ! j" by simp
    with assms(3) b show "i = j" by (metis nth_eq_iff_index_eq length_map)
  qed
  with assms(2) show ?thesis
    by (simp add: take_rows_in_range [OF assms(1)] distinct_map comp_def)
qed

lemma snd_take_rows:
  "set idx \<subseteq> {0..<length s} \<Longrightarrow>
     map snd (take_rows s idx) = map (\<lambda>i. map snd s ! i) idx"
  by (auto simp: take_rows_in_range)

lemma sort_values_descending_Nil: "sort_values_descending argsort [] = []"
  by (simp add: sort_values_descending_def take_rows_def)

lemma set_sort_values_descending:
  "is_argsort (argsort (map snd (rev s))) (map snd (rev s)) \<Longrightarrow>
     set (sort_values_descending argsort s) = set s"
  using is_argsort_positions(1) [of "argsort (map snd (rev s))" "map snd (rev s)"]
  by (simp add: sort_values_descending_def Let_def set_take_rows)

lemma length_sort_values_descending:
  "is_argsort (argsort (map snd (rev s))) (map snd (rev s)) \<Longrightarrow>
     length (sort_values_descending argsort s) = length s"
  using is_argsort_positions [of "argsort (map snd (rev s))" "map snd (rev s)"]
  by (simp add: sort_values_descending_def Let_def take_rows_in_range)

lemma distinct_fst_sort_values_descending:
  assumes "is_argsort (argsort (map snd (rev s))) (map snd (rev s))" and "distinct (map fst s)"
  shows "distinct (map fst (sort_values_descending argsort s))"
proof -
  let ?idx = "argsort (map snd (rev s))"
  from is_argsort_positions [OF assms(1)]
  have r: "set ?idx \<subseteq> {0..<length (rev s)}" and d: "distinct ?idx" by simp_all
  from assms(2) have "distinct (map fst (rev s))" by (simp add: rev_map [symmetric])
  from distinct_fst_take_rows [OF r d this]
  have "distinct (rev (map fst (take_rows (rev s) ?idx)))" by simp
  then show ?thesis by (simp add: sort_values_descending_def Let_def rev_map)
qed

lemma sort_values_descending_order:
  assumes "is_argsort (argsort (map snd (rev s))) (map snd (rev s))"
  shows "sorted_wrt (\<lambda>a b. snd b \<le> snd a) (sort_values_descending argsort s)"
proof -
  let ?idx = "argsort (map snd (rev s))"
  from is_argsort_positions [OF assms]
  have r: "set ?idx \<subseteq> {0..<length (rev s)}" by simp
  from assms have "sorted (map (\<lambda>i. map snd (rev s) ! i) ?idx)"
    by (simp add: is_argsort_def)
  then have "sorted (map snd (take_rows (rev s) ?idx))"
    by (simp only: snd_take_rows [OF r])
  then have "sorted_wrt (\<lambda>a b. snd a \<le> snd b) (take_rows (rev s) ?idx)"
    by (simp add: sorted_wrt_map)
  then show ?thesis
    by (simp add: sort_values_descending_def Let_def sorted_wrt_rev)
qed

text \<open>
  The condition on the sorting routine can be met on every series: the routine that keeps
  equal values in place meets it.
\<close>

lemma stable_argsort_is_argsort: "is_argsort (stable_argsort vs) vs"
proof -
  let ?zs = "zip vs [0..<length vs]"
  let ?L = "sort_key fst ?zs"
  have snd_zs: "map snd ?zs = [0..<length vs]" by simp
  have el: "\<forall>p \<in> set ?L. snd p < length vs \<and> vs ! snd p = fst p"
    by (auto simp: set_zip)
  have "distinct (map snd ?zs)" unfolding snd_zs by simp
  then have dz: "distinct ?zs" and inj: "inj_on snd (set ?zs)"
    by (simp_all only: distinct_map)
  have d: "distinct (stable_argsort vs)"
    unfolding stable_argsort_def using dz inj by (simp add: distinct_map)
  have "set (stable_argsort vs) = snd ` set ?zs"
    unfolding stable_argsort_def by simp
  also have "\<dots> = set (map snd ?zs)" by (simp only: set_map)
  finally have "set (stable_argsort vs) = set (map snd ?zs)" .
  then have s: "set (stable_argsort vs) = set [0..<length vs]"
    unfolding snd_zs .
  have "sort (stable_argsort vs) = [0..<length vs]"
    by (rule sorted_distinct_set_unique) (simp_all add: d s)
  moreover have "map (\<lambda>i. vs ! i) (stable_argsort vs) = map fst ?L"
    unfolding stable_argsort_def using el by (simp add: comp_def)
  then have "sorted (map (\<lambda>i. vs ! i) (stable_argsort vs))" by simp
  ultimately show ?thesis by (simp add: is_argsort_def)
qed

lemma product_sales_keys:
  "map fst (product_sales v) = map fst (groupby (\<lambda>r. Some (Product_Name r)) v)"
  by (simp add: product_sales_def comp_def case_prod_unfold)

lemma product_sales_entry:
  "(p, s) \<in> set (product_sales v) \<Longrightarrow>
     p \<in> Product_Name ` set v \<and> s = sum_list (map Sales (filter (\<lambda>x. Product_Name x = p) v))"
proof -
  assume "(p, s) \<in> set (product_sales v)"
  then obtain g where g: "(p, g) \<in> set (groupby (\<lambda>r. Some (Product_Name r)) v)"
    and s: "s = series_sum (map Sales g)"
    by (auto simp: product_sales_def)
  from g have "p \<in> set (map fst (groupby (\<lambda>r. Some (Product_Name r)) v))" by force
  then have "p \<in> Product_Name ` set v"
    unfolding groupby_keys_set by auto
  moreover from groupby_group [OF g] s
  have "s = sum_list (map Sales (filter (\<lambda>x. Product_Name x = p) v))"
    by (simp add: series_sum_def)
  ultimately show ?thesis by simp
qed

lemma product_sales_length: "length (product_sales v) = card (Product_Name ` set v)"
proof -
  have "{k. \<exists>r \<in> set v. Some (Product_Name r) = Some k} = Product_Name ` set v" by auto
  then show ?thesis
    by (simp add: product_sales_def groupby_length)
qed

lemma product_sales_complete:
  "p \<in> Product_Name ` set v \<Longrightarrow>
     (p, sum_list (map Sales (filter (\<lambda>x. Product_Name x = p) v))) \<in> set (product_sales v)"
proof -
  assume "p \<in> Product_Name ` set v"
  then have "p \<in> set (map fst (product_sales v))"
    unfolding product_sales_keys groupby_keys_set by auto
  then obtain s where "(p, s) \<in> set (product_sales v)" by auto
  with product_sales_entry [of p s v] show ?thesis by simp
qed

section \<open>Facts about the removal of duplicates\<close>

lemma boolean_index_Cons:
  "boolean_index (x # xs) (b # bs) = (if b then x # boolean_index xs bs else boolean_index xs bs)"
  by (simp add: boolean_index_def)

lemma boolean_index_Nil: "boolean_index [] bs = []"
  by (simp add: boolean_index_def)

lemma set_drop_from:
  "set (boolean_index xs (map Not (duplicated_from seen xs))) = set xs - set seen"
  by (induction xs arbitrary: seen) (auto simp: boolean_index_Cons boolean_index_Nil)

lemma distinct_drop_from:
  "distinct (boolean_index xs (map Not (duplicated_from seen xs)))"
  by (induction xs arbitrary: seen) (auto simp: boolean_index_Cons boolean_index_Nil set_drop_from)

lemma subseq_drop_from:
  "subseq (boolean_index xs (map Not (duplicated_from seen xs))) xs"
  by (induction xs arbitrary: seen) (auto simp: boolean_index_Cons boolean_index_Nil)

lemma drop_from_distinct:
  "distinct xs \<Longrightarrow> set xs \<inter> set seen = {} \<Longrightarrow>
     boolean_index xs (map Not (duplicated_from seen xs)) = xs"
  by (induction xs arbitrary: seen) (auto simp: boolean_index_Cons boolean_index_Nil)

lemma set_drop_duplicates: "set (drop_duplicates xs) = set xs"
  by (simp add: drop_duplicates_def set_drop_from)

lemma distinct_drop_duplicates: "distinct (drop_duplicates xs)"
  by (simp add: drop_duplicates_def distinct_drop_from)

lemma drop_duplicates_distinct: "distinct xs \<Longrightarrow> drop_duplicates xs = xs"
  by (simp add: drop_duplicates_def drop_from_distinct)

lemma load_data_alt:
  "load_data td csv =
     map (\<lambda>r. loaded_row (td (map Order_Date (drop_duplicates csv)) (Order_Date r)) r)
       (drop_duplicates csv)"
  by (simp add: load_data_def Let_def)

section \<open>The filter engine\<close>

text \<open>
  C1. The filtered view is exactly the rows of the table, in table order, whose year equals
  the selected year, whose region is one of the selected regions and whose category is one
  of the selected categories. It is a sub-sequence of the table, and no row of the table
  left out of it satisfies the three conditions together.
\<close>

theorem filtered_df_exact:
  "filtered_df df y regs cats =
     filter (\<lambda>r. Year r = Some y \<and> Region r \<in> set regs \<and> Category r \<in> set cats) df
   \<and> subseq (filtered_df df y regs cats) df
   \<and> set (filtered_df df y regs cats) \<subseteq> set df
   \<and> (\<forall>r \<in> set df. r \<notin> set (filtered_df df y regs cats) \<longrightarrow>
         \<not> (Year r = Some y \<and> Region r \<in> set regs \<and> Category r \<in> set cats))"
  by (auto simp: filtered_df_filter)

theorem filtered_df_exact_witness:
  "filtered_df example_df 2023 [''East'', ''West''] [''Tech'', ''Office''] =
     [mk_row 2023 1 100 20 ''East'' ''Tech'' ''Phone'',
      mk_row 2023 3 200 (-50) ''West'' ''Office'' ''Desk'']
   \<and> mk_row 2023 1 40 4 ''South'' ''Tech'' ''Cable'' \<in> set example_df
   \<and> mk_row 2023 1 40 4 ''South'' ''Tech'' ''Cable''
       \<notin> set (filtered_df example_df 2023 [''East'', ''West''] [''Tech'', ''Office''])
   \<and> \<not> (Year (mk_row 2023 1 40 4 ''South'' ''Tech'' ''Cable'') = Some 2023
        \<and> Region (mk_row 2023 1 40 4 ''South'' ''Tech'' ''Cable'') \<in> set [''East'', ''West'']
        \<and> Category (mk_row 2023 1 40 4 ''South'' ''Tech'' ''Cable'') \<in> set [''Tech'', ''Office''])"
  using filtered_df_exact [of example_df 2023 "[''East'', ''West'']" "[''Tech'', ''Office'']"]
  by (simp add: example_df_def mk_row_def undated_row_def)

section \<open>The scalar aggregates\<close>

text \<open>
  C2. The margin percentage and the revenue growth percentage never raise, for views of
  any content (negative profits included). Each is exactly 0 when its denominator (the
  total revenue, the revenue of the previous year) is 0; otherwise the margin percentage is
  total profit / total revenue * 100 and the growth percentage is
  (current revenue - previous revenue) / previous revenue * 100.
\<close>

theorem margin_growth_total:
  "(\<exists>m. margin_percent v = Inr m) \<and> (\<exists>g. revenue_growth v p = Inr g)
   \<and> (total_revenue v = 0 \<longrightarrow> margin_percent v = Inr 0)
   \<and> (total_revenue v \<noteq> 0 \<longrightarrow>
        margin_percent v = Inr (total_profit v / total_revenue v * 100))
   \<and> (prev_revenue p = 0 \<longrightarrow> revenue_growth v p = Inr 0)
   \<and> (prev_revenue p \<noteq> 0 \<longrightarrow>
        revenue_growth v p = Inr ((total_revenue v - prev_revenue p) / prev_revenue p * 100))"
  by (simp add: margin_percent_def margin_def revenue_growth_def py_truediv_def)

theorem margin_growth_total_witness:
  "total_revenue (filtered_df example_df 2023 [''East'', ''West''] [''Tech'', ''Office'']) = 300
   \<and> total_profit (filtered_df example_df 2023 [''East'', ''West''] [''Tech'', ''Office'']) = - 30
   \<and> margin_percent (filtered_df example_df 2023 [''East'', ''West''] [''Tech'', ''Office''])
       = Inr (- 10)
   \<and> prev_revenue (previous_df example_df 2023) = 80
   \<and> revenue_growth (filtered_df example_df 2023 [''East'', ''West''] [''Tech'', ''Office''])
        (previous_df example_df 2023) = Inr 275
   \<and> total_revenue [] = 0 \<and> margin_percent [] = Inr 0
   \<and> prev_revenue [] = 0
   \<and> revenue_growth (filtered_df example_df 2023 [''East'', ''West''] [''Tech'', ''Office'']) []
       = Inr 0"
  using
    margin_growth_total [of "filtered_df example_df 2023 [''East'', ''West''] [''Tech'', ''Office'']"
      "previous_df example_df 2023"]
    margin_growth_total [of "[]" "[]"]
    margin_growth_total [of "filtered_df example_df 2023 [''East'', ''West''] [''Tech'', ''Office'']" "[]"]
  by (simp add: filtered_df_filter previous_df_filter example_df_def mk_row_def undated_row_def
      total_revenue_def total_profit_def prev_revenue_def series_sum_def)

text \<open>
  C6. The comparison view is exactly the rows of the table whose year is the selected
  year minus one. The selected regions and categories play no part in it: every row of
  that year is in it, whatever its region and category.
\<close>

theorem previous_df_exact:
  "previous_df df y = filter (\<lambda>r. Year r = Some (y - 1)) df
   \<and> (\<forall>r \<in> set df. Year r = Some (y - 1) \<longrightarrow> r \<in> set (previous_df df y))
   \<and> (\<forall>r \<in> set (previous_df df y). r \<in> set df \<and> Year r = Some (y - 1))"
  by (auto simp: previous_df_filter)

theorem previous_df_exact_witness:
  "previous_df example_df 2023 = [mk_row 2022 7 80 8 ''West'' ''Tech'' ''Phone'']
   \<and> filtered_df example_df 2023 [''East''] [''Office''] = []
   \<and> Region (mk_row 2022 7 80 8 ''West'' ''Tech'' ''Phone'') \<notin> set [''East'']
   \<and> Category (mk_row 2022 7 80 8 ''West'' ''Tech'' ''Phone'') \<notin> set [''Office'']
   \<and> mk_row 2022 7 80 8 ''West'' ''Tech'' ''Phone'' \<in> set example_df
   \<and> Year (mk_row 2022 7 80 8 ''West'' ''Tech'' ''Phone'') = Some (2023 - 1)
   \<and> mk_row 2022 7 80 8 ''West'' ''Tech'' ''Phone'' \<in> set (previous_df example_df 2023)"
  using previous_df_exact [of example_df 2023]
  by (simp add: filtered_df_filter example_df_def mk_row_def undated_row_def)

text \<open>
  C10. Whenever the growth percentage is not strictly positive, the message reports a
  decline by the absolute value of the percentage; an increase is reported only for a
  strictly positive percentage. In particular, when the revenue of the previous year is 0
  the percentage is 0 and a decline by 0 is reported, also when the current revenue is
  positive.
\<close>

theorem growth_banner_direction:
  "(\<not> 0 < g \<longrightarrow> growth_banner g = Declined \<bar>g\<bar>)
   \<and> ((\<exists>x. growth_banner g = Increased x) \<longleftrightarrow> 0 < g)
   \<and> (0 < g \<longrightarrow> growth_banner g = Increased g)
   \<and> (prev_revenue p = 0 \<and> 0 < total_revenue v \<longrightarrow>
        revenue_growth v p = Inr 0 \<and> growth_banner 0 = Declined 0)"
  by (simp add: growth_banner_def revenue_growth_def)

theorem growth_banner_direction_witness:
  "\<not> 0 < (- 100 :: rat) \<and> growth_banner (- 100) = Declined 100
   \<and> 0 < (275 :: rat) \<and> growth_banner 275 = Increased 275
   \<and> prev_revenue [] = 0 \<and> 0 < total_revenue [mk_row 2023 1 500 20 ''East'' ''Tech'' ''Phone'']
   \<and> revenue_growth [mk_row 2023 1 500 20 ''East'' ''Tech'' ''Phone''] [] = Inr 0
   \<and> growth_banner 0 = Declined 0"
  using growth_banner_direction [of "- 100" "[]" "[mk_row 2023 1 500 20 ''East'' ''Tech'' ''Phone'']"]
    growth_banner_direction [of 275 "[]" "[mk_row 2023 1 500 20 ''East'' ''Tech'' ''Phone'']"]
  by (simp add: prev_revenue_def total_revenue_def series_sum_def mk_row_def)

section \<open>The grouped series\<close>

text \<open>
  C4, as amended. Whenever the sum of the profit column, the sum of the sales column and
  the sums of the groups are free of rounding error (as they all are in exact arithmetic),
  the profits of the entries of the category table add up to the total profit of the view
  and the sales of the entries of the region table add up to its total revenue. The sums
  are those of any routine for adding a column and any routine for adding a group.
\<close>

theorem rollup_sums_without_rounding:
  assumes "column_sum (map Profit v) = sum_list (map Profit v)"
    and "column_sum (map Sales v) = sum_list (map Sales v)"
    and "\<forall>(k, g) \<in> set (groupby (\<lambda>r. Some (Category r)) v).
           group_sum (map Profit g) = sum_list (map Profit g)"
    and "\<forall>(k, g) \<in> set (groupby (\<lambda>r. Some (Region r)) v).
           group_sum (map Sales g) = sum_list (map Sales g)"
  shows "sum_list (map snd (category_by group_sum v)) = total_profit_by column_sum v
     \<and> sum_list (map (\<lambda>(k, s, p). s) (region_by group_sum v)) = total_revenue_by column_sum v"
proof -
  have "map snd (category_by group_sum v)
      = map (\<lambda>(k, g). group_sum (map Profit g)) (groupby (\<lambda>r. Some (Category r)) v)"
    by (simp add: category_by_def comp_def case_prod_unfold)
  also have "\<dots> = map (\<lambda>(k, g). series_sum (map Profit g)) (groupby (\<lambda>r. Some (Category r)) v)"
    using assms(3) by (auto simp: series_sum_def)
  finally have "sum_list (map snd (category_by group_sum v)) = series_sum (map Profit v)"
    by (simp add: groupby_sum_total)
  then have c: "sum_list (map snd (category_by group_sum v)) = total_profit_by column_sum v"
    by (simp add: total_profit_by_def assms(1) series_sum_def)
  have "map (\<lambda>(k, s, p). s) (region_by group_sum v)
      = map (\<lambda>(k, g). group_sum (map Sales g)) (groupby (\<lambda>r. Some (Region r)) v)"
    by (simp add: region_by_def comp_def case_prod_unfold)
  also have "\<dots> = map (\<lambda>(k, g). series_sum (map Sales g)) (groupby (\<lambda>r. Some (Region r)) v)"
    using assms(4) by (auto simp: series_sum_def)
  finally have "sum_list (map (\<lambda>(k, s, p). s) (region_by group_sum v)) = series_sum (map Sales v)"
    by (simp add: groupby_sum_total)
  then have r: "sum_list (map (\<lambda>(k, s, p). s) (region_by group_sum v))
      = total_revenue_by column_sum v"
    by (simp add: total_revenue_by_def assms(2) series_sum_def)
  from c r show ?thesis by simp
qed

text \<open>
  Two uses of it on the same view: with exact sums, where the conditions hold of
  themselves, and with binary64 sums of amounts small enough to be added without rounding.
\<close>

theorem rollup_sums_without_rounding_witness:
  "category_by series_sum tie_view3 = category tie_view3
   \<and> region_by series_sum tie_view3 = region tie_view3
   \<and> sum_list (map snd (category tie_view3)) = total_profit tie_view3
   \<and> sum_list (map (\<lambda>(k, s, p). s) (region tie_view3)) = total_revenue tie_view3
   \<and> float64_sum (map Profit tie_view3) = sum_list (map Profit tie_view3)
   \<and> float64_sum (map Sales tie_view3) = sum_list (map Sales tie_view3)
   \<and> region_by float64_sum tie_view3 = [(''East'', 20, 3), (''West'', 30, 2)]
   \<and> total_revenue_by float64_sum tie_view3 = 50
   \<and> sum_list (map snd (category_by float64_sum tie_view3)) = total_profit_by float64_sum tie_view3
   \<and> sum_list (map (\<lambda>(k, s, p). s) (region_by float64_sum tie_view3))
       = total_revenue_by float64_sum tie_view3"
proof -
  have f: "float64_sum [1, 2, 2] = 5" "float64_sum [10, 10, 30] = 50"
    "float64_sum [10, 10] = 20" "float64_sum [30] = 30"
    "float64_sum [1, 2] = 3" "float64_sum [2] = 2"
    by code_simp+
  have e: "category_by series_sum tie_view3 = category tie_view3"
    "region_by series_sum tie_view3 = region tie_view3"
    "total_profit_by series_sum tie_view3 = total_profit tie_view3"
    "total_revenue_by series_sum tie_view3 = total_revenue tie_view3"
    by (simp_all add: category_by_def category_def region_by_def region_def
        total_profit_by_def total_profit_def total_revenue_by_def total_revenue_def)
  have x: "sum_list (map snd (category tie_view3)) = total_profit tie_view3
     \<and> sum_list (map (\<lambda>(k, s, p). s) (region tie_view3)) = total_revenue tie_view3"
    using rollup_sums_without_rounding [of series_sum tie_view3 series_sum]
    by (simp add: e series_sum_def)
  have h: "float64_sum (map Profit tie_view3) = sum_list (map Profit tie_view3)"
    "float64_sum (map Sales tie_view3) = sum_list (map Sales tie_view3)"
    by (simp_all add: example_simps f)
  have g: "\<forall>(k, g) \<in> set (groupby (\<lambda>r. Some (Category r)) tie_view3).
           float64_sum (map Profit g) = sum_list (map Profit g)"
    "\<forall>(k, g) \<in> set (groupby (\<lambda>r. Some (Region r)) tie_view3).
           float64_sum (map Sales g) = sum_list (map Sales g)"
    by (simp_all add: example_simps f)
  have v: "region_by float64_sum tie_view3 = [(''East'', 20, 3), (''West'', 30, 2)]"
    "total_revenue_by float64_sum tie_view3 = 50"
    by (simp_all add: example_simps rollup_by_simps f)
  from e x h v rollup_sums_without_rounding [of float64_sum tie_view3 float64_sum, OF h g]
  show ?thesis by simp
qed

text \<open>
  C4 as first stated holds of every view. In binary64 the view with the amounts 1e16, 1,
  -1e16 and 1 has a total revenue and a total profit of 1 (1e16 + 1 rounds to 1e16), while
  the groups add up to 0 and 2, whose sum is 2.
\<close>

theorem rollup_sums_rounding_counterexample:
  "total_revenue_by float64_sum rounding_view = 1
   \<and> region_by float64_sum rounding_view = [(''East'', 0, 0), (''West'', 2, 2)]
   \<and> sum_list (map (\<lambda>(k, s, p). s) (region_by float64_sum rounding_view)) = 2
   \<and> float64_sum (map (\<lambda>(k, s, p). s) (region_by float64_sum rounding_view)) = 2
   \<and> total_profit_by float64_sum rounding_view = 1
   \<and> category_by float64_sum rounding_view = [(''Office'', 2), (''Tech'', 0)]
   \<and> sum_list (map snd (category_by float64_sum rounding_view)) = 2
   \<and> float64_sum (map snd (category_by float64_sum rounding_view)) = 2
   \<and> sum_list (map (\<lambda>(k, s, p). s) (region_by float64_sum rounding_view))
       \<noteq> total_revenue_by float64_sum rounding_view
   \<and> sum_list (map snd (category_by float64_sum rounding_view))
       \<noteq> total_profit_by float64_sum rounding_view"
proof -
  have f: "float64_sum [10000000000000000, 1, - 10000000000000000, 1] = 1"
    "float64_sum [10000000000000000, - 10000000000000000] = 0"
    "float64_sum [1, 1] = 2" "float64_sum [0, 2] = 2" "float64_sum [2, 0] = 2"
    by code_simp+
  show ?thesis
    by (simp add: rollup_by_simps mk_row_def groupby_def map_filter_simps f)
qed

text \<open>
  C5. The monthly table has one entry per calendar month (year and month of the order
  date) in which the view has a row, and no other entry; the entries are in strictly
  ascending chronological order, and each carries the sum of the sales of the rows of its
  month. Turning the periods into text keeps the entries, their order and their sums.
\<close>

theorem monthly_one_entry_per_month:
  "sorted_wrt (\<lambda>p q. fst p < fst q \<or> (fst p = fst q \<and> snd p < snd q)) (map fst (monthly_grouped v))
   \<and> set (map fst (monthly_grouped v))
       = {m. \<exists>r \<in> set v. \<exists>d. Order_Date r = Some d \<and> m = to_period_M d}
   \<and> distinct (map fst (monthly_grouped v))
   \<and> (\<forall>(m, s) \<in> set (monthly_grouped v).
         s = sum_list (map Sales (filter (\<lambda>r. map_option to_period_M (Order_Date r) = Some m) v)))
   \<and> map fst (monthly astype_str v) = map astype_str (map fst (monthly_grouped v))
   \<and> map snd (monthly astype_str v) = map snd (monthly_grouped v)"
proof -
  let ?key = "\<lambda>r. map_option to_period_M (Order_Date r)"
  have "sorted_wrt (<) (map fst (groupby ?key v))"
    using groupby_keys_sorted [of ?key v] groupby_keys_distinct [of ?key v]
    by (simp add: strict_sorted_iff)
  then have ord: "sorted_wrt (\<lambda>p q. fst p < fst q \<or> (fst p = fst q \<and> snd p < snd q))
      (map fst (monthly_grouped v))"
    unfolding monthly_grouped_keys
    by (rule sorted_wrt_mono_rel [rotated]) (rule chronological_less)
  have keys: "set (map fst (monthly_grouped v))
       = {m. \<exists>r \<in> set v. \<exists>d. Order_Date r = Some d \<and> m = to_period_M d}"
    unfolding monthly_grouped_keys groupby_keys_set by (auto; metis)
  have dist: "distinct (map fst (monthly_grouped v))"
    unfolding monthly_grouped_keys by (rule groupby_keys_distinct)
  have sums: "\<forall>(m, s) \<in> set (monthly_grouped v).
         s = sum_list (map Sales (filter (\<lambda>r. ?key r = Some m) v))"
    by (auto simp: monthly_grouped_def series_sum_def dest: groupby_group)
  have str: "map fst (monthly astype_str v) = map astype_str (map fst (monthly_grouped v))"
    "map snd (monthly astype_str v) = map snd (monthly_grouped v)"
    by (simp_all add: monthly_def comp_def case_prod_unfold)
  from ord keys dist sums str show ?thesis by blast
qed

theorem monthly_one_entry_per_month_witness:
  "monthly_grouped example_df = [((2022, 7), 80), ((2023, 1), 140), ((2023, 3), 200)]
   \<and> ((2023, 1), 140) \<in> set (monthly_grouped example_df)
   \<and> sum_list (map Sales
         (filter (\<lambda>r. map_option to_period_M (Order_Date r) = Some (2023, 1)) example_df)) = 140
   \<and> (2023, 2) \<notin> set (map fst (monthly_grouped example_df))"
  using monthly_one_entry_per_month [of example_df]
  by (simp add: example_simps)

text \<open>
  C3, as amended. For every view, every count \<open>n\<close> and every sorting routine that does on
  the sums of the view what a sort has to do, the ranking has
  min(\<open>n\<close>, number of distinct product names of the view) entries, each a product of the
  view with the sum of its sales, no product twice; the sums are non-increasing, and no
  product left out has a greater sum than one that is listed. Nothing is promised about
  the order of entries with equal sums: it is not the order in which the view first shows
  the products.
\<close>

theorem top_products_ranked:
  assumes "is_argsort (argsort (map snd (rev (product_sales v)))) (map snd (rev (product_sales v)))"
  shows "length (top_products_n argsort n v) = min n (card (Product_Name ` set v))
   \<and> sorted_wrt (\<lambda>a b. snd b \<le> snd a) (top_products_n argsort n v)
   \<and> distinct (map fst (top_products_n argsort n v))
   \<and> (\<forall>(p, s) \<in> set (top_products_n argsort n v).
         p \<in> Product_Name ` set v
         \<and> s = sum_list (map Sales (filter (\<lambda>x. Product_Name x = p) v)))
   \<and> (\<forall>p \<in> Product_Name ` set v. p \<notin> fst ` set (top_products_n argsort n v) \<longrightarrow>
         (\<forall>(q, s) \<in> set (top_products_n argsort n v).
            sum_list (map Sales (filter (\<lambda>x. Product_Name x = p) v)) \<le> s))"
proof -
  let ?T = "product_sales v"
  let ?L = "sort_values_descending argsort ?T"
  have top: "top_products_n argsort n v = take n ?L"
    by (simp add: top_products_n_def head_def)
  have names: "distinct (map fst ?T)"
    unfolding product_sales_keys by (rule groupby_keys_distinct)
  have len: "length (top_products_n argsort n v) = min n (card (Product_Name ` set v))"
    by (simp add: top length_sort_values_descending [where argsort = argsort and s = "product_sales v", OF assms] product_sales_length min.commute)
  have desc: "sorted_wrt (\<lambda>a b. snd b \<le> snd a) ?L"
    by (rule sort_values_descending_order [where argsort = argsort and s = "product_sales v", OF assms])
  have ord: "sorted_wrt (\<lambda>a b. snd b \<le> snd a) (top_products_n argsort n v)"
    unfolding top by (rule sorted_wrt_take) (rule desc)
  have "distinct (map fst ?L)"
    by (rule distinct_fst_sort_values_descending
        [where argsort = argsort and s = "product_sales v", OF assms names])
  then have dist: "distinct (map fst (top_products_n argsort n v))"
    unfolding top by (simp add: take_map [symmetric])
  have entries: "\<forall>(p, s) \<in> set (top_products_n argsort n v).
         p \<in> Product_Name ` set v
         \<and> s = sum_list (map Sales (filter (\<lambda>x. Product_Name x = p) v))"
  proof (clarify)
    fix p s assume "(p, s) \<in> set (top_products_n argsort n v)"
    then have "(p, s) \<in> set ?L" unfolding top by (rule in_set_takeD)
    then have "(p, s) \<in> set ?T" by (simp add: set_sort_values_descending [where argsort = argsort and s = "product_sales v", OF assms])
    then show "p \<in> Product_Name ` set v
         \<and> s = sum_list (map Sales (filter (\<lambda>x. Product_Name x = p) v))"
      by (rule product_sales_entry)
  qed
  have below: "sum_list (map Sales (filter (\<lambda>x. Product_Name x = p) v)) \<le> s"
    if p: "p \<in> Product_Name ` set v" and out: "p \<notin> fst ` set (top_products_n argsort n v)"
      and q: "(q, s) \<in> set (top_products_n argsort n v)" for p q s
  proof -
    let ?sp = "sum_list (map Sales (filter (\<lambda>x. Product_Name x = p) v))"
    from product_sales_complete [OF p] have "(p, ?sp) \<in> set ?L"
      by (simp add: set_sort_values_descending [where argsort = argsort and s = "product_sales v", OF assms])
    then have "(p, ?sp) \<in> set (take n ?L) \<union> set (drop n ?L)"
      by (metis append_take_drop_id set_append)
    with out have d: "(p, ?sp) \<in> set (drop n ?L)"
      unfolding top by force
    have "sorted_wrt (\<lambda>a b. snd b \<le> snd a) (take n ?L @ drop n ?L)"
      using desc by simp
    then have "\<forall>a \<in> set (take n ?L). \<forall>b \<in> set (drop n ?L). snd b \<le> snd a"
      unfolding sorted_wrt_append by blast
    with q d show "?sp \<le> s" unfolding top by force
  qed
  have rest: "\<forall>p \<in> Product_Name ` set v. p \<notin> fst ` set (top_products_n argsort n v) \<longrightarrow>
         (\<forall>(q, s) \<in> set (top_products_n argsort n v).
            sum_list (map Sales (filter (\<lambda>x. Product_Name x = p) v)) \<le> s)"
    using below by blast
  from len ord dist entries rest show ?thesis by blast
qed

text \<open>
  Two uses of it on a view with the sums Apron 10, Bench 10, Chair 20, Desk 20: one routine
  ranks Chair, Desk, Apron, Bench, the other Desk, Chair, Bench, Apron, and both rankings
  are as the theorem says.
\<close>

theorem top_products_ranked_witness:
  "is_argsort (stable_argsort (map snd (rev (product_sales tie_view4))))
      (map snd (rev (product_sales tie_view4)))
   \<and> is_argsort (reversing_argsort (map snd (rev (product_sales tie_view4))))
      (map snd (rev (product_sales tie_view4)))
   \<and> top_products stable_argsort tie_view4
       = [(''Chair'', 20), (''Desk'', 20), (''Apron'', 10), (''Bench'', 10)]
   \<and> top_products reversing_argsort tie_view4
       = [(''Desk'', 20), (''Chair'', 20), (''Bench'', 10), (''Apron'', 10)]
   \<and> top_products_n reversing_argsort 2 tie_view4 = [(''Desk'', 20), (''Chair'', 20)]
   \<and> length (top_products_n reversing_argsort 2 tie_view4)
       = min 2 (card (Product_Name ` set tie_view4))
   \<and> ''Apron'' \<in> Product_Name ` set tie_view4
   \<and> ''Apron'' \<notin> fst ` set (top_products_n reversing_argsort 2 tie_view4)
   \<and> sum_list (map Sales (filter (\<lambda>x. Product_Name x = ''Apron'') tie_view4)) \<le> 20"
proof -
  have t: "product_sales tie_view4
      = [(''Apron'', 10), (''Bench'', 10), (''Chair'', 20), (''Desk'', 20)]"
    by (simp add: example_simps ranking_simps)
  have a: "is_argsort (stable_argsort (map snd (rev (product_sales tie_view4))))
      (map snd (rev (product_sales tie_view4)))"
    "is_argsort (reversing_argsort (map snd (rev (product_sales tie_view4))))
      (map snd (rev (product_sales tie_view4)))"
    unfolding t by (simp_all add: ranking_simps)
  have r: "top_products stable_argsort tie_view4
       = [(''Chair'', 20), (''Desk'', 20), (''Apron'', 10), (''Bench'', 10)]"
    "top_products reversing_argsort tie_view4
       = [(''Desk'', 20), (''Chair'', 20), (''Bench'', 10), (''Apron'', 10)]"
    "top_products_n reversing_argsort 2 tie_view4 = [(''Desk'', 20), (''Chair'', 20)]"
    unfolding top_products_def top_products_n_def t by (simp_all add: ranking_simps head_def)
  have m: "''Apron'' \<in> Product_Name ` set tie_view4"
    "card (Product_Name ` set tie_view4) = 4"
    "sum_list (map Sales (filter (\<lambda>x. Product_Name x = ''Apron'') tie_view4)) = 10"
    by (simp_all add: tie_view4_def mk_row_def)
  from a r m
    top_products_ranked [where argsort = stable_argsort and v = tie_view4 and n = 5, OF a(1)]
    top_products_ranked [where argsort = reversing_argsort and v = tie_view4 and n = 2, OF a(2)]
  show ?thesis by simp
qed

text \<open>
  C3 as first stated breaks ties by the order in which the products are first seen. Two
  views that show Desk and Chair, both with sales of 10, in opposite orders hand the same
  table of sums to the sort, so the script ranks them alike, while the stated rule asks for
  Desk, Chair in the one and Chair, Desk in the other. A routine that keeps equal values in
  place fails the first view, one that swaps them fails the second.
\<close>

theorem top_products_tie_counterexample:
  "product_sales tie_view = product_sales tie_view_swapped
   \<and> spec_topProductsByRevenue tie_view 5 = [(''Desk'', 10), (''Chair'', 10)]
   \<and> spec_topProductsByRevenue tie_view_swapped 5 = [(''Chair'', 10), (''Desk'', 10)]
   \<and> top_products stable_argsort tie_view = [(''Chair'', 10), (''Desk'', 10)]
   \<and> top_products stable_argsort tie_view \<noteq> spec_topProductsByRevenue tie_view 5
   \<and> top_products reversing_argsort tie_view_swapped = [(''Desk'', 10), (''Chair'', 10)]
   \<and> top_products reversing_argsort tie_view_swapped
       \<noteq> spec_topProductsByRevenue tie_view_swapped 5"
  by (simp add: example_simps ranking_simps spec_topProductsByRevenue_def drop_duplicates_def
      boolean_index_def)

section \<open>The loader\<close>

text \<open>
  C8. Removing duplicates is idempotent. The result has no two equal rows, has exactly the
  rows of the input (a row goes only if an equal row, all columns equal, stays) in their
  first positions, and is the input itself when the input has no two equal rows. Loading a
  file whose duplicates are already removed gives the same table as loading the file.
\<close>

theorem drop_duplicates_idempotent:
  "drop_duplicates (drop_duplicates xs) = drop_duplicates xs
   \<and> distinct (drop_duplicates xs)
   \<and> set (drop_duplicates xs) = set xs
   \<and> subseq (drop_duplicates xs) xs
   \<and> (distinct xs \<longrightarrow> drop_duplicates xs = xs)
   \<and> load_data to_datetime (drop_duplicates csv) = load_data to_datetime csv"
  by (simp add: drop_duplicates_distinct distinct_drop_duplicates set_drop_duplicates
      load_data_alt) (simp add: drop_duplicates_def subseq_drop_from)


theorem drop_duplicates_idempotent_witness:
  "drop_duplicates example_csv = [mk_csv ''2023-01-15'' 100 20, mk_csv ''n/a'' 50 5]
   \<and> distinct [mk_csv ''2023-01-15'' 100 20, mk_csv ''n/a'' 50 5]
   \<and> drop_duplicates [mk_csv ''2023-01-15'' 100 20, mk_csv ''n/a'' 50 5]
       = [mk_csv ''2023-01-15'' 100 20, mk_csv ''n/a'' 50 5]
   \<and> load_data toy_to_datetime [mk_csv ''2023-01-15'' 100 20, mk_csv ''n/a'' 50 5]
       = load_data toy_to_datetime example_csv"
proof -
  have d: "drop_duplicates example_csv = [mk_csv ''2023-01-15'' 100 20, mk_csv ''n/a'' 50 5]"
    by (simp add: example_csv_def mk_csv_def drop_duplicates_def boolean_index_def)
  have n: "distinct [mk_csv ''2023-01-15'' 100 20, mk_csv ''n/a'' 50 5]"
    by (simp add: mk_csv_def)
  from d n
    drop_duplicates_idempotent
      [of "[mk_csv ''2023-01-15'' 100 20, mk_csv ''n/a'' 50 5]" toy_to_datetime example_csv]
  show ?thesis by simp
qed

text \<open>
  C7. A row of the file whose order date cannot be parsed is in the loaded table, with no
  date and no year, and it is in no filtered view and in no comparison view, whatever year
  and whatever regions and categories are selected.
\<close>

theorem unparsed_dates_kept:
  assumes "r \<in> set csv"
    and "to_datetime (map Order_Date (drop_duplicates csv)) (Order_Date r) = None"
  shows "loaded_row None r \<in> set (load_data to_datetime csv)
     \<and> Order_Date (loaded_row None r) = None
     \<and> Year (loaded_row None r) = None
     \<and> (\<forall>y regs cats. loaded_row None r \<notin> set (filtered_df (load_data to_datetime csv) y regs cats))
     \<and> (\<forall>y. loaded_row None r \<notin> set (previous_df (load_data to_datetime csv) y))"
proof -
  from assms(1) have "r \<in> set (drop_duplicates csv)"
    by (simp add: set_drop_duplicates)
  then have "loaded_row (to_datetime (map Order_Date (drop_duplicates csv)) (Order_Date r)) r
      \<in> set (load_data to_datetime csv)"
    unfolding load_data_alt by auto
  with assms(2) have "loaded_row None r \<in> set (load_data to_datetime csv)" by simp
  moreover have "Year (loaded_row None r) = None" "Order_Date (loaded_row None r) = None"
    by (simp_all add: loaded_row_def)
  ultimately show ?thesis
    by (simp add: filtered_df_filter previous_df_filter)
qed


theorem unparsed_dates_kept_witness:
  "mk_csv ''n/a'' 50 5 \<in> set example_csv
   \<and> toy_to_datetime (map Order_Date (drop_duplicates example_csv)) (Order_Date (mk_csv ''n/a'' 50 5))
       = None
   \<and> loaded_row None (mk_csv ''n/a'' 50 5) \<in> set (load_data toy_to_datetime example_csv)
   \<and> Year (loaded_row None (mk_csv ''n/a'' 50 5)) = None
   \<and> loaded_row None (mk_csv ''n/a'' 50 5)
       \<notin> set (filtered_df (load_data toy_to_datetime example_csv) 2023 [''East''] [''Tech''])
   \<and> filtered_df (load_data toy_to_datetime example_csv) 2023 [''East''] [''Tech'']
       = [loaded_row (Some \<lparr>dt_year = 2023, dt_month = 1, dt_day = 15\<rparr>)
            (mk_csv ''2023-01-15'' 100 20)]"
proof -
  have m: "mk_csv ''n/a'' 50 5 \<in> set example_csv"
    by (simp add: example_csv_def)
  have u: "toy_to_datetime (map Order_Date (drop_duplicates example_csv))
      (Order_Date (mk_csv ''n/a'' 50 5)) = None"
    by (simp add: toy_to_datetime_def mk_csv_def)
  have d: "drop_duplicates example_csv = [mk_csv ''2023-01-15'' 100 20, mk_csv ''n/a'' 50 5]"
    by (simp add: example_csv_def mk_csv_def drop_duplicates_def boolean_index_def)
  have l: "load_data toy_to_datetime example_csv
      = [loaded_row (Some \<lparr>dt_year = 2023, dt_month = 1, dt_day = 15\<rparr>)
           (mk_csv ''2023-01-15'' 100 20),
         loaded_row None (mk_csv ''n/a'' 50 5)]"
    by (simp add: load_data_alt d toy_to_datetime_def) (simp add: mk_csv_def)
  have f: "filtered_df (load_data toy_to_datetime example_csv) 2023 [''East''] [''Tech'']
      = [loaded_row (Some \<lparr>dt_year = 2023, dt_month = 1, dt_day = 15\<rparr>)
           (mk_csv ''2023-01-15'' 100 20)]"
    unfolding l by (simp add: filtered_df_filter loaded_row_def mk_csv_def)
  from unparsed_dates_kept
      [where r = "mk_csv ''n/a'' 50 5" and csv = example_csv and to_datetime = toy_to_datetime, OF m u]
    m u f
  show ?thesis by (simp add: loaded_row_def)
qed

section \<open>Empty views\<close>

text \<open>
  C9, as amended. No aggregate raises on any view. On an empty view the total revenue, the
  total profit and the margin percentage are 0 and every grouped table is empty; an empty
  selection of regions or of categories gives an empty view. The growth percentage of an
  empty view is 0 when the revenue of the previous year is 0 and -100 otherwise, since the
  comparison view is not narrowed by the selected regions and categories.
\<close>

theorem empty_view_aggregates:
  "total_revenue [] = 0 \<and> total_profit [] = 0 \<and> margin_percent [] = Inr 0
   \<and> revenue_growth [] p = Inr (if prev_revenue p = 0 then 0 else - 100)
   \<and> monthly_grouped [] = [] \<and> monthly astype_str [] = []
   \<and> category [] = [] \<and> region [] = [] \<and> top_products argsort [] = []
   \<and> filtered_df df y [] cats = [] \<and> filtered_df df y regs [] = []
   \<and> (\<exists>m. margin_percent v = Inr m) \<and> (\<exists>g. revenue_growth v p = Inr g)"
proof -
  have scal: "total_revenue [] = 0" "total_profit [] = 0" "margin_percent [] = Inr 0"
    by (simp_all add: total_revenue_def total_profit_def margin_percent_def margin_def series_sum_def)
  have growth: "revenue_growth [] p = Inr (if prev_revenue p = 0 then 0 else - 100)"
    by (simp add: revenue_growth_def py_truediv_def total_revenue_def series_sum_def)
  have groups: "monthly_grouped [] = []" "monthly astype_str [] = []" "category [] = []"
    "region [] = []" "top_products argsort [] = []"
    by (simp_all add: monthly_grouped_def monthly_def category_def region_def top_products_def
        top_products_n_def product_sales_def groupby_Nil head_def sort_values_descending_Nil)
  have filt: "filtered_df df y [] cats = []" "filtered_df df y regs [] = []"
    by (simp_all add: filtered_df_filter)
  have tot: "\<exists>m. margin_percent v = Inr m" "\<exists>g. revenue_growth v p = Inr g"
    by (simp_all add: margin_percent_def margin_def revenue_growth_def py_truediv_def)
  from scal growth groups filt tot show ?thesis by blast
qed

theorem empty_view_aggregates_witness:
  "filtered_df example_df 2023 [] [''Tech'', ''Office''] = []
   \<and> prev_revenue (previous_df example_df 2023) \<noteq> 0
   \<and> revenue_growth [] (previous_df example_df 2023) = Inr (- 100)
   \<and> prev_revenue (previous_df example_df 2022) = 0
   \<and> revenue_growth [] (previous_df example_df 2022) = Inr 0"
  using
    empty_view_aggregates [where p = "previous_df example_df 2023" and df = example_df
      and y = 2023 and cats = "[''Tech'', ''Office'']"]
    empty_view_aggregates [where p = "previous_df example_df 2022"]
  by (simp add: previous_df_filter example_simps)

text \<open>
  C9 as first stated gives 0 for every scalar aggregate of an empty view. With no region
  selected the view is empty, the previous year has a revenue of 80, and the growth
  percentage is -100.
\<close>

theorem empty_view_growth_counterexample:
  "filtered_df example_df 2023 [] [''Tech'', ''Office''] = []
   \<and> revenue_growth (filtered_df example_df 2023 [] [''Tech'', ''Office''])
        (previous_df example_df 2023) = Inr (- 100)
   \<and> revenue_growth (filtered_df example_df 2023 [] [''Tech'', ''Office''])
        (previous_df example_df 2023) \<noteq> Inr 0"
  by (simp add: filtered_df_filter previous_df_filter revenue_growth_def py_truediv_def
      example_simps)

end
